theory Spec2Isabelle
  imports Complex_Main
begin

section \<open>Errors\<close>

text \<open>
  Go's \<open>error\<close> values, as far as the code distinguishes them.  \<open>DuplicateKey\<close> is
  the error for which \<open>mongo.IsDuplicateKeyError\<close> answers true, \<open>WriteConflict\<close> the
  store's optimistic-concurrency failure, \<open>External\<close> any other failure raised outside
  the repository (driver, network, JSON decoder, body reader).  \<open>New\<close> and
  \<open>AddContext\<close> are the two constructors of package \<open>errors\<close> that the code calls.
  A nil error is \<open>None\<close> of type \<open>error option\<close>.
\<close>

datatype error =
    DuplicateKey
  | WriteConflict
  | External string
  | New string
  | AddContext error string

text \<open>
  \<open>mongo.IsDuplicateKeyError(err)\<close>; the code applies it to the error an insert
  returned, nil included (database/user.go, lines 45 and 50).
\<close>

fun IsDuplicateKeyError :: "error option \<Rightarrow> bool" where
  "IsDuplicateKeyError (Some DuplicateKey) = True"
| "IsDuplicateKeyError _ = False"

text \<open>
  A failure of the store that does not depend on the stored documents (the environment
  decides it: a lost connection, a write conflict with a concurrent unit of work).  A
  duplicate key is never such a failure: the store reports it only for a real duplicate.
\<close>

datatype fault = FaultWriteConflict | FaultExternal string

fun fault_error :: "fault \<Rightarrow> error" where
  "fault_error FaultWriteConflict = WriteConflict"
| "fault_error (FaultExternal m) = External m"

text \<open>The \<open>err\<close> variable of Go's \<open>v, err := f(...)\<close>.\<close>

fun err_of :: "error + 'a \<Rightarrow> error option" where
  "err_of (Inl e) = Some e"
| "err_of (Inr v) = None"

section \<open>Documents and collections\<close>

text \<open>
  The types \<open>User\<close>, \<open>Subscription\<close> and \<open>Txn\<close> are those of package \<open>database\<close>
  (src/database/user.go, lines 12-36); the collection names are its constants
  (src/api/routes.go, lines 150-167).  Line numbers are those of the files under src/.
\<close>

record User =
  User_Sub :: string

text \<open>
  Amounts and prices are \<open>float64\<close> in the source.  The model leaves their type open:
  \<open>'n\<close> is any type with the operations the code applies to amounts (\<open>+\<close> in
  \<open>$sum\<close>, \<open>-\<close> in \<open>UserBalance\<close>, \<open>0\<close>, and \<open>\<le>\<close> in \<open>Validate\<close>).  No law of
  arithmetic is assumed of them, so what is proved of \<open>'n\<close> holds of \<open>float64\<close> with its
  rounding addition; where a law is needed it is a stated hypothesis.
\<close>

record 'n Subscription =
  Subscription_ID :: nat
  Subscription_Sub :: string
  Subscription_Tier :: int
  Subscription_From :: int
  Subscription_To :: int
  Subscription_Price :: 'n

text \<open>
  \<open>Txn_ID\<close> is stored as the document's \<open>_id\<close>, the primary key of the collection.
\<close>

record 'n Txn =
  Txn_ID :: string
  Txn_Sub :: string
  Txn_Amount :: 'n

definition collSubscriptions :: string where
  "collSubscriptions = ''subscriptions''"

definition collTnxs :: string where
  "collTnxs = ''txns''"

definition collUsers :: string where
  "collUsers = ''users''"

text \<open>
  The database: one list of documents per collection, in insertion order.  A \<open>User\<close>
  document has no \<open>_id\<close> field of its own, so the driver gives each inserted user a
  fresh \<open>_id\<close>; the list may therefore hold equal \<open>User\<close> values more than once.
\<close>

record 'n DB =
  coll_users :: "User list"
  coll_txns :: "'n Txn list"
  coll_subscriptions :: "'n Subscription list"

definition empty_DB :: "'n DB" where
  "empty_DB = \<lparr>coll_users = [], coll_txns = [], coll_subscriptions = []\<rparr>"

section \<open>The schema (src/database/schema.go, lines 15-38)\<close>

text \<open>
  \<open>mongo.IndexModel\<close>: the keys, the name, and whether the index is unique.  An index
  built with \<open>options.Index().SetName(n)\<close> alone is not unique.
\<close>

record IndexModel =
  Keys :: "(string \<times> int) list"
  Name :: string
  Unique :: bool

definition schema :: "(string \<times> IndexModel list) list" where
  "schema =
    [(collSubscriptions,
        [\<lparr>Keys = [(''sub'', 1)], Name = ''sub'', Unique = False\<rparr>,
         \<lparr>Keys = [(''from'', 1)], Name = ''from'', Unique = False\<rparr>,
         \<lparr>Keys = [(''to'', 1)], Name = ''to'', Unique = False\<rparr>]),
     (collTnxs,
        [\<lparr>Keys = [(''price'', 1)], Name = ''price'', Unique = False\<rparr>])]"

text \<open>
  The fields of a collection on which \<open>ensureDBSchema\<close> leaves a unique single-field
  index: it creates exactly the indexes of \<open>schema\<close>.
\<close>

definition unique_fields :: "string \<Rightarrow> string list" where
  "unique_fields coll =
     concat (map (\<lambda>(c, models).
        if c = coll
        then concat (map (\<lambda>m. if Unique m \<and> length (Keys m) = 1 then map fst (Keys m) else []) models)
        else []) schema)"

section \<open>Inserts and credit (src/database/user.go, lines 38-82)\<close>

text \<open>
  \<open>Collection(collUsers).InsertOne\<close>.  A fault of the environment fails the insert.
  Otherwise the store refuses the document as a duplicate exactly when a unique index
  of the collection covers \<open>sub\<close> and a stored user has this \<open>sub\<close>; the fresh \<open>_id\<close>
  never collides.
\<close>

definition InsertOne_users :: "fault option \<Rightarrow> User \<Rightarrow> 'n DB \<Rightarrow> (error + unit) \<times> 'n DB" where
  "InsertOne_users f u db =
     (case f of
        Some x \<Rightarrow> (Inl (fault_error x), db)
      | None \<Rightarrow>
          if ''sub'' \<in> set (unique_fields collUsers) \<and> (\<exists>v \<in> set (coll_users db). User_Sub v = User_Sub u)
          then (Inl DuplicateKey, db)
          else (Inr (), db\<lparr>coll_users := coll_users db @ [u]\<rparr>))"

text \<open>
  \<open>Collection(collTnxs).InsertOne\<close>.  The \<open>_id\<close> of a \<open>Txn\<close> is its \<open>ID\<close>, and \<open>_id\<close> is
  unique in every collection; \<open>schema\<close> puts no unique index on the collection.
\<close>

definition InsertOne_txns :: "fault option \<Rightarrow> 'n Txn \<Rightarrow> 'n DB \<Rightarrow> (error + unit) \<times> 'n DB" where
  "InsertOne_txns f t db =
     (case f of
        Some x \<Rightarrow> (Inl (fault_error x), db)
      | None \<Rightarrow>
          if \<exists>v \<in> set (coll_txns db). Txn_ID v = Txn_ID t
          then (Inl DuplicateKey, db)
          else (Inr (), db\<lparr>coll_txns := coll_txns db @ [t]\<rparr>))"

definition NewUser :: "fault option \<Rightarrow> string \<Rightarrow> 'n DB \<Rightarrow> (error + User) \<times> 'n DB" where
  "NewUser f sub db =
     (let u = \<lparr>User_Sub = sub\<rparr>;
          (r, db') = InsertOne_users f u db
      in case r of Inl err \<Rightarrow> (Inl err, db') | Inr _ \<Rightarrow> (Inr u, db'))"

definition NewTxn ::
  "fault option \<Rightarrow> string \<Rightarrow> string \<Rightarrow> 'n \<Rightarrow> 'n DB \<Rightarrow> (error + 'n Txn) \<times> 'n DB" where
  "NewTxn f ident sub amount db =
     (let txn = \<lparr>Txn_ID = ident, Txn_Sub = sub, Txn_Amount = amount\<rparr>;
          (r, db') = InsertOne_txns f txn db
      in case r of Inl err \<Rightarrow> (Inl err, db') | Inr _ \<Rightarrow> (Inr txn, db'))"

text \<open>
  \<open>CreditUser\<close> (lines 42-58).  \<open>f1\<close> and \<open>f2\<close> are the environment's faults for the two
  inserts.  The result is the returned error (\<open>Inr ()\<close> for nil) and the database as
  the calls left it inside the current unit of work.
\<close>

definition CreditUser ::
  "fault option \<Rightarrow> fault option \<Rightarrow> string \<Rightarrow> 'n \<Rightarrow> string \<Rightarrow> 'n DB \<Rightarrow> (error + unit) \<times> 'n DB" where
  "CreditUser f1 f2 sub amount txnID db =
     (let (r1, db1) = NewUser f1 sub db;
          err = err_of r1
      in if err \<noteq> None \<and> \<not> IsDuplicateKeyError err
         then (Inl (AddContext (the err) ''failed to create user''), db1)
         else
           let (r2, db2) = NewTxn f2 txnID sub amount db1;
               err = err_of r2
           in if IsDuplicateKeyError err then (Inr (), db2)
              else if err \<noteq> None then (Inl (AddContext (the err) ''failed to register txn''), db2)
              else (Inr (), db2))"

text \<open>
  The unit of work around a ledger call.  \<open>CreditUser\<close> "assumes that it's called from
  within a DB transaction, so when it fails with an error all changes in the DB are
  automatically rolled back" (lines 40-41): the writes of a call that returns an error
  are undone, those of a call that returns nil are committed.
\<close>

definition unit_of_work :: "('n DB \<Rightarrow> (error + 'a) \<times> 'n DB) \<Rightarrow> 'n DB \<Rightarrow> (error + 'a) \<times> 'n DB" where
  "unit_of_work op db =
     (case op db of
        (Inl err, db') \<Rightarrow> (Inl err, db)
      | (Inr v, db') \<Rightarrow> (Inr v, db'))"

text \<open>
  The store states the service can reach from an empty database: \<open>CreditUser\<close> is the
  only operation of the repository that writes, and units of work are atomic, so
  concurrent requests act on the store as some sequence of units of work.
\<close>

inductive reachable :: "'n DB \<Rightarrow> bool" where
  reachable_empty: "reachable empty_DB"
| reachable_credit:
    "reachable db \<Longrightarrow> reachable (snd (unit_of_work (CreditUser f1 f2 sub amount txnID) db))"


section \<open>Balance (src/database/user.go, lines 84-149)\<close>








section \<open>Requests and responses\<close>

text \<open>
  \<open>PaymentPOST\<close> and \<open>Validate\<close>: src/api/routes.go, lines 19-42.  \<open>WriteError\<close>:
  src/.github/workflows/ci_release.yml, lines 361-371 (package \<open>api\<close>).
\<close>

record 'n PaymentPOST =
  TxnID :: string
  Sub :: string
  Credits :: 'n

text \<open>\<open>Validate\<close>: the returned error, \<open>None\<close> for nil.\<close>

definition Validate :: "('n::{ord,zero}) PaymentPOST \<Rightarrow> error option" where
  "Validate p =
     (if Credits p \<le> 0 then Some (New ''non-positive credits amount'')
      else if Sub p = [] then Some (New ''missing or empty sub'')
      else if TxnID p = [] then Some (New ''missing or empty txn ID'')
      else None)"

text \<open>
  What a handler does to the \<open>http.ResponseWriter\<close> it is given, call by call.  A body
  is either raw bytes or the JSON encoding of \<open>errorWrap{Message: err.Error()}\<close>, kept as
  the error it encodes.
\<close>

datatype payload = Bytes string | JSON_errorWrap error

datatype writer_call =
    Header_Set string string
  | WriteHeader int
  | Write payload

definition StatusBadRequest :: int where
  "StatusBadRequest = 400"

definition StatusInternalServerError :: int where
  "StatusInternalServerError = 500"

definition StatusNoContent :: int where
  "StatusNoContent = 204"

definition WriteError :: "error \<Rightarrow> int \<Rightarrow> writer_call list" where
  "WriteError err code =
     [Header_Set ''Content-Type'' ''application/json; charset=utf-8'',
      WriteHeader code,
      Write (JSON_errorWrap err)]"

text \<open>
  Modelled from the spec: \<open>api.WriteSuccess\<close> is called by \<open>paymentPOST\<close> and is not
  among the sources.  Section 6 gives the success response of the payment notification
  as "empty body, success status", the README as status 204.
\<close>

definition WriteSuccess :: "writer_call list" where
  "WriteSuccess = [WriteHeader StatusNoContent]"

text \<open>
  The number of responses in a sequence of writer calls: a response starts with its one
  status line.
\<close>

definition responses :: "writer_call list \<Rightarrow> nat" where
  "responses cs = length (filter (\<lambda>c. case c of WriteHeader code \<Rightarrow> True | _ \<Rightarrow> False) cs)"

section \<open>The payment handler (src/.github/workflows/ci_release.yml, lines 404-424)\<close>

text \<open>
  What one run of a handler leaves behind: the calls it made on its writer, the
  \<open>CreditUser\<close> invocations it made (arguments in call order), and the database inside
  the unit of work.
\<close>

record 'n handled =
  response :: "writer_call list"
  credit_calls :: "(string \<times> 'n \<times> string) list"
  db_after :: "'n DB"

text \<open>
  \<open>paymentPOST\<close> (lines 407-424).  \<open>decoded\<close> is the outcome of decoding the request
  body into a \<open>PaymentPOST\<close>.
\<close>

definition paymentPOST ::
  "fault option \<Rightarrow> fault option \<Rightarrow> error + ('n::{ord,zero}) PaymentPOST \<Rightarrow> 'n DB \<Rightarrow> 'n handled" where
  "paymentPOST f1 f2 decoded db =
     (case decoded of
        Inl err \<Rightarrow>
          \<lparr>response = WriteError (AddContext err ''failed to parse body'') StatusBadRequest,
           credit_calls = [], db_after = db\<rparr>
      | Inr payment \<Rightarrow>
          (case Validate payment of
             Some err \<Rightarrow>
               \<lparr>response = WriteError err StatusBadRequest, credit_calls = [], db_after = db\<rparr>
           | None \<Rightarrow>
               (case CreditUser f1 f2 (Sub payment) (Credits payment) (TxnID payment) db of
                  (Inl err, db') \<Rightarrow>
                    \<lparr>response = WriteError err StatusInternalServerError,
                     credit_calls = [(Sub payment, Credits payment, TxnID payment)],
                     db_after = db'\<rparr>
                | (Inr u, db') \<Rightarrow>
                    \<lparr>response = WriteSuccess,
                     credit_calls = [(Sub payment, Credits payment, TxnID payment)],
                     db_after = db'\<rparr>)))"

section \<open>The retry orchestrator (src/.github/workflows/ci_release.yml, lines 204-359)\<close>

definition DBTxnRetryCount :: int where
  "DBTxnRetryCount = 5"

text \<open>
  \<open>MongoWriter\<close> is not among the sources; \<open>WithDBSession\<close> reads three things from the
  writer after the handler has run (\<open>ErrorStatus()\<close>, \<open>ErrorBuffer()\<close>,
  \<open>FailedWithWriteConflict()\<close>) and hands it the real writer \<open>w\<close>.  The record is the
  writer as the handler left it: those three answers, and the calls the writer made on
  \<open>w\<close> while the handler ran.
\<close>

record MongoWriter =
  ErrorStatus :: int
  ErrorBuffer :: payload
  FailedWithWriteConflict :: bool
  passed_to_w :: "writer_call list"

text \<open>
  One attempt as the environment decides it: whether \<open>NewSession\<close> and
  \<open>NewMongoWriter\<close> fail, what the handler \<open>h\<close> does through the writer to a store
  \<open>'s\<close> (the writer afterwards, and the store inside the unit of work), and whether
  the request context is done when the retry is decided.
\<close>

record 's attempt =
  NewSession_err :: "error option"
  NewMongoWriter_err :: "error option"
  run_h :: "'s \<Rightarrow> MongoWriter \<times> 's"
  ctx_Done :: bool

text \<open>
  Modelled from the spec: ending the unit of work is done by \<open>MongoWriter\<close> and the
  session, which are not among the sources.  Section 4.3, step 4: "End the unit of work
  (commit if the handler did not record an error, abort otherwise)".
\<close>

definition end_unit_of_work :: "MongoWriter \<Rightarrow> 's \<Rightarrow> 's \<Rightarrow> 's" where
  "end_unit_of_work mw before after = (if ErrorStatus mw = 0 then after else before)"

text \<open>
  The state of one request: the calls made so far on the real writer \<open>w\<close>, the durable
  store, the closure variable \<open>numRetriesLeft\<close>, and two counters: the runs of
  \<open>handleFn\<close> and the invocations of the handler \<open>h\<close>.
\<close>

record 's request =
  w :: "writer_call list"
  store :: 's
  numRetriesLeft :: int
  attempts :: nat
  h_calls :: nat

text \<open>\<open>handleFn\<close> (lines 301-352): one attempt; the flag is \<open>retry\<close>.\<close>

definition handleFn :: "'s attempt \<Rightarrow> 's request \<Rightarrow> bool \<times> 's request" where
  "handleFn a r0 =
     (let r = r0\<lparr>attempts := Suc (attempts r0)\<rparr> in
      case NewSession_err a of
        Some err \<Rightarrow>
          (False, r\<lparr>w := w r @ WriteError (AddContext err ''failed to start a new mongo session'')
                                  StatusInternalServerError\<rparr>)
      | None \<Rightarrow>
          (case NewMongoWriter_err a of
             Some err \<Rightarrow>
               (False, r\<lparr>w := w r @ WriteError (AddContext err ''failed to start a new transaction'')
                                       StatusInternalServerError\<rparr>)
           | None \<Rightarrow>
               let (mw, s') = run_h a (store r);
                   r1 = r\<lparr>w := w r @ passed_to_w mw,
                          store := end_unit_of_work mw (store r) s',
                          h_calls := Suc (h_calls r)\<rparr>
               in if ErrorStatus mw = 0 then (False, r1)
                  else if FailedWithWriteConflict mw \<and> numRetriesLeft r1 > 0 \<and> \<not> ctx_Done a
                  then (True, r1\<lparr>numRetriesLeft := numRetriesLeft r1 - 1\<rparr>)
                  else (False, r1\<lparr>w := w r1 @ [WriteHeader (ErrorStatus mw), Write (ErrorBuffer mw)]\<rparr>)))"

text \<open>
  \<open>for handleFn() { }\<close> (lines 356-357): \<open>env k\<close> is the \<open>k\<close>-th attempt of the request,
  counted from 0.
\<close>

function retry_loop :: "(nat \<Rightarrow> 's attempt) \<Rightarrow> nat \<Rightarrow> 's request \<Rightarrow> 's request" where
  "retry_loop env k r =
     (case handleFn (env k) r of
        (retry, r') \<Rightarrow> if retry then retry_loop env (Suc k) r' else r')"
  by pat_completeness auto
termination
  by (relation "measure (\<lambda>(env, k, r). nat (numRetriesLeft r))")
     (auto simp: handleFn_def Let_def split: option.splits prod.splits if_splits)

text \<open>
  \<open>WithDBSession\<close> (lines 282-359) for one request.  \<open>body_err\<close> is the outcome of
  reading the request body once up front; \<open>s\<close> is the store when the request arrives.
\<close>

definition WithDBSession :: "error option \<Rightarrow> (nat \<Rightarrow> 's attempt) \<Rightarrow> 's \<Rightarrow> 's request" where
  "WithDBSession body_err env s =
     (let r = \<lparr>w = [], store = s, numRetriesLeft = DBTxnRetryCount, attempts = 0, h_calls = 0\<rparr>
      in case body_err of
           Some err \<Rightarrow> r\<lparr>w := w r @ WriteError (AddContext err ''failed to read body'') StatusBadRequest\<rparr>
         | None \<Rightarrow> retry_loop env 0 r)"

text \<open>
  An attempt records a conflict when run against store \<open>s\<close>: session and writer start,
  and the writer ends with an error status that is classified as a write conflict.
\<close>

definition records_conflict :: "'s attempt \<Rightarrow> 's \<Rightarrow> bool" where
  "records_conflict a s =
     (NewSession_err a = None \<and> NewMongoWriter_err a = None \<and>
      ErrorStatus (fst (run_h a s)) \<noteq> 0 \<and> FailedWithWriteConflict (fst (run_h a s)))"

subsection \<open>Concrete requests\<close>

text \<open>
  A request all of whose attempts end in a write conflict (status 500, nothing passed
  to \<open>w\<close>) while the request context stays live; the store is trivial.
\<close>

definition conflict_writer :: MongoWriter where
  "conflict_writer =
     \<lparr>ErrorStatus = 500,
      ErrorBuffer = JSON_errorWrap (AddContext WriteConflict ''failed to register txn''),
      FailedWithWriteConflict = True,
      passed_to_w = []\<rparr>"

definition always_conflict :: "nat \<Rightarrow> unit attempt" where
  "always_conflict k =
     \<lparr>NewSession_err = None, NewMongoWriter_err = None,
      run_h = (\<lambda>s. (conflict_writer, s)), ctx_Done = False\<rparr>"

text \<open>
  A request whose first attempt succeeds through a writer that passes nothing to \<open>w\<close>
  while the handler runs.
\<close>

definition silent_writer :: MongoWriter where
  "silent_writer =
     \<lparr>ErrorStatus = 0, ErrorBuffer = Bytes [], FailedWithWriteConflict = False, passed_to_w = []\<rparr>"

definition silent_success :: "nat \<Rightarrow> unit attempt" where
  "silent_success k =
     \<lparr>NewSession_err = None, NewMongoWriter_err = None,
      run_h = (\<lambda>s. (silent_writer, s)), ctx_Done = False\<rparr>"

text \<open>
  A request whose first attempt ends in a write conflict and whose second attempt
  succeeds, the writer passing the success response (status 204) on to \<open>w\<close>.
\<close>

definition passing_writer :: MongoWriter where
  "passing_writer =
     \<lparr>ErrorStatus = 0, ErrorBuffer = Bytes [], FailedWithWriteConflict = False,
      passed_to_w = [WriteHeader 204]\<rparr>"

definition conflict_then_success :: "nat \<Rightarrow> unit attempt" where
  "conflict_then_success k =
     \<lparr>NewSession_err = None, NewMongoWriter_err = None,
      run_h = (\<lambda>s. (if k = 0 then conflict_writer else passing_writer, s)), ctx_Done = False\<rparr>"

text \<open>
  A request whose attempts end in an error that is no write conflict (the store was
  unreachable during the user insert).
\<close>

definition internal_error_writer :: MongoWriter where
  "internal_error_writer =
     \<lparr>ErrorStatus = 500,
      ErrorBuffer = JSON_errorWrap (AddContext (External ''unreachable'') ''failed to create user''),
      FailedWithWriteConflict = False,
      passed_to_w = []\<rparr>"

definition always_internal_error :: "nat \<Rightarrow> unit attempt" where
  "always_internal_error k =
     \<lparr>NewSession_err = None, NewMongoWriter_err = None,
      run_h = (\<lambda>s. (internal_error_writer, s)), ctx_Done = False\<rparr>"

section \<open>The ledger: inserts, credit and balance\<close>

lemma unique_fields_collUsers: "unique_fields collUsers = []"
  by (simp add: unique_fields_def schema_def collUsers_def collSubscriptions_def collTnxs_def)

lemma InsertOne_users_None:
  "InsertOne_users None u db = (Inr (), db\<lparr>coll_users := coll_users db @ [u]\<rparr>)"
  by (simp add: InsertOne_users_def unique_fields_collUsers)

lemma NewUser_None:
  "NewUser None sub db = (Inr \<lparr>User_Sub = sub\<rparr>, db\<lparr>coll_users := coll_users db @ [\<lparr>User_Sub = sub\<rparr>]\<rparr>)"
  by (simp add: NewUser_def InsertOne_users_None Let_def)

lemma NewUser_fault:
  "NewUser (Some x) sub db = (Inl (fault_error x), db)"
  by (simp add: NewUser_def InsertOne_users_def Let_def)

lemma fault_error_not_duplicate: "\<not> IsDuplicateKeyError (Some (fault_error x))"
  by (cases x) simp_all

lemma NewTxn_fault:
  "NewTxn (Some x) ident sub amount db = (Inl (fault_error x), db)"
  by (simp add: NewTxn_def InsertOne_txns_def Let_def)

lemma NewTxn_duplicate:
  "ident \<in> Txn_ID ` set (coll_txns db) \<Longrightarrow> NewTxn None ident sub amount db = (Inl DuplicateKey, db)"
  by (auto simp add: NewTxn_def InsertOne_txns_def Let_def)

lemma NewTxn_fresh:
  "ident \<notin> Txn_ID ` set (coll_txns db) \<Longrightarrow>
   NewTxn None ident sub amount db =
     (Inr \<lparr>Txn_ID = ident, Txn_Sub = sub, Txn_Amount = amount\<rparr>,
      db\<lparr>coll_txns := coll_txns db @ [\<lparr>Txn_ID = ident, Txn_Sub = sub, Txn_Amount = amount\<rparr>]\<rparr>)"
  by (auto simp add: NewTxn_def InsertOne_txns_def Let_def)

lemma CreditUser_user_fault:
  "CreditUser (Some x) f2 sub amount txnID db =
     (Inl (AddContext (fault_error x) ''failed to create user''), db)"
  by (simp add: CreditUser_def NewUser_fault fault_error_not_duplicate)

lemma CreditUser_txn_fault:
  "CreditUser None (Some x) sub amount txnID db =
     (Inl (AddContext (fault_error x) ''failed to register txn''),
      db\<lparr>coll_users := coll_users db @ [\<lparr>User_Sub = sub\<rparr>]\<rparr>)"
  by (simp add: CreditUser_def NewUser_None NewTxn_fault fault_error_not_duplicate)

lemma CreditUser_replay:
  "txnID \<in> Txn_ID ` set (coll_txns db) \<Longrightarrow>
   CreditUser None None sub amount txnID db =
     (Inr (), db\<lparr>coll_users := coll_users db @ [\<lparr>User_Sub = sub\<rparr>]\<rparr>)"
  by (simp add: CreditUser_def NewUser_None NewTxn_duplicate)

lemma CreditUser_first:
  "txnID \<notin> Txn_ID ` set (coll_txns db) \<Longrightarrow>
   CreditUser None None sub amount txnID db =
     (Inr (), db\<lparr>coll_users := coll_users db @ [\<lparr>User_Sub = sub\<rparr>],
                coll_txns := coll_txns db @ [\<lparr>Txn_ID = txnID, Txn_Sub = sub, Txn_Amount = amount\<rparr>]\<rparr>)"
  by (simp add: CreditUser_def NewUser_None NewTxn_fresh)









lemma unit_of_work_replay:
  "txnID \<in> Txn_ID ` set (coll_txns db) \<Longrightarrow>
   unit_of_work (CreditUser None None sub amount txnID) db =
     (Inr (), db\<lparr>coll_users := coll_users db @ [\<lparr>User_Sub = sub\<rparr>]\<rparr>)"
  by (simp add: unit_of_work_def CreditUser_replay)

lemma unit_of_work_first:
  "txnID \<notin> Txn_ID ` set (coll_txns db) \<Longrightarrow>
   unit_of_work (CreditUser None None sub amount txnID) db =
     (Inr (), db\<lparr>coll_users := coll_users db @ [\<lparr>User_Sub = sub\<rparr>],
                coll_txns := coll_txns db @ [\<lparr>Txn_ID = txnID, Txn_Sub = sub, Txn_Amount = amount\<rparr>]\<rparr>)"
  by (simp add: unit_of_work_def CreditUser_first)







section \<open>Invariants of the reachable store states\<close>

lemma unit_of_work_CreditUser_cases:
  "snd (unit_of_work (CreditUser f1 f2 sub amount txnID) db) = db \<or>
   snd (unit_of_work (CreditUser f1 f2 sub amount txnID) db) =
     db\<lparr>coll_users := coll_users db @ [\<lparr>User_Sub = sub\<rparr>]\<rparr> \<or>
   (txnID \<notin> Txn_ID ` set (coll_txns db) \<and>
    snd (unit_of_work (CreditUser f1 f2 sub amount txnID) db) =
      db\<lparr>coll_users := coll_users db @ [\<lparr>User_Sub = sub\<rparr>],
         coll_txns := coll_txns db @ [\<lparr>Txn_ID = txnID, Txn_Sub = sub, Txn_Amount = amount\<rparr>]\<rparr>)"
proof (cases f1)
  case (Some x)
  then show ?thesis by (simp add: unit_of_work_def CreditUser_user_fault)
next
  case None
  note f1 = this
  show ?thesis
  proof (cases f2)
    case (Some y)
    then show ?thesis by (simp add: f1 unit_of_work_def CreditUser_txn_fault)
  next
    case None
    show ?thesis
    proof (cases "txnID \<in> Txn_ID ` set (coll_txns db)")
      case True
      then show ?thesis by (simp add: f1 None unit_of_work_replay)
    next
      case False
      then show ?thesis by (simp add: f1 None unit_of_work_first)
    qed
  qed
qed

lemma reachable_txn_ids_distinct:
  "reachable db \<Longrightarrow> distinct (map Txn_ID (coll_txns db))"
proof (induction rule: reachable.induct)
  case reachable_empty
  show ?case by (simp add: empty_DB_def)
next
  case (reachable_credit db f1 f2 sub amount txnID)
  from unit_of_work_CreditUser_cases [of f1 f2 sub amount txnID db] reachable_credit.IH
  show ?case by auto
qed

lemma reachable_txn_has_user:
  "reachable db \<Longrightarrow> \<forall>t \<in> set (coll_txns db). \<exists>u \<in> set (coll_users db). User_Sub u = Txn_Sub t"
proof (induction rule: reachable.induct)
  case reachable_empty
  show ?case by (simp add: empty_DB_def)
next
  case (reachable_credit db f1 f2 sub amount txnID)
  from unit_of_work_CreditUser_cases [of f1 f2 sub amount txnID db] reachable_credit.IH
  show ?case by auto
qed

lemma NewTxn_recorded:
  "t \<in> set (coll_txns db) \<Longrightarrow> NewTxn None (Txn_ID t) sub amount db = (Inl DuplicateKey, db)"
  by (rule NewTxn_duplicate) simp

lemma NewTxn_recorded_any:
  "t \<in> set (coll_txns db) \<Longrightarrow> \<exists>e. NewTxn f (Txn_ID t) sub amount db = (Inl e, db)"
  by (cases f) (simp_all add: NewTxn_recorded NewTxn_fault)

lemma CreditUser_user_insert_fails:
  assumes "fst (NewUser f1 sub db) = Inl e" and "e \<noteq> DuplicateKey"
  shows "CreditUser f1 f2 sub amount txnID db = (Inl (AddContext e ''failed to create user''), db)"
proof -
  from assms(1) obtain x where f1: "f1 = Some x"
    by (cases f1) (simp_all add: NewUser_None)
  with assms(1) have "e = fault_error x" by (simp add: NewUser_fault)
  then show ?thesis by (simp add: f1 CreditUser_user_fault)
qed

lemma CreditUser_user_insert_first:
  assumes "fst (NewUser f1 sub db) = Inr u"
  shows "snd (CreditUser f1 f2 sub amount txnID db) = snd (NewTxn f2 txnID sub amount (snd (NewUser f1 sub db)))"
proof -
  from assms have f1: "f1 = None"
    by (cases f1) (simp_all add: NewUser_fault)
  show ?thesis
    by (cases f2; cases "txnID \<in> Txn_ID ` set (coll_txns db)")
       (simp_all add: f1 CreditUser_txn_fault CreditUser_replay CreditUser_first
          NewUser_None NewTxn_fault NewTxn_duplicate NewTxn_fresh)
qed


lemma CreditUser_keeps_ids_distinct:
  assumes "distinct (map Txn_ID (coll_txns db))"
  shows "distinct (map Txn_ID (coll_txns (snd (CreditUser f1 f2 sub amount txnID db))))"
proof (cases f1)
  case (Some x)
  then show ?thesis using assms by (simp add: CreditUser_user_fault)
next
  case None
  note f1 = this
  show ?thesis
  proof (cases f2)
    case (Some y)
    then show ?thesis using assms by (simp add: f1 CreditUser_txn_fault)
  next
    case None
    show ?thesis
      using assms
      by (cases "txnID \<in> Txn_ID ` set (coll_txns db)")
         (simp_all add: f1 None CreditUser_replay CreditUser_first)
  qed
qed

text \<open>
  Claim C6 (transaction-record uniqueness).  In every reachable store state no two
  transaction records have the same id.  The id is the primary key: an insert with the
  id of a stored record reports a duplicate key and leaves the store as it is, and
  whatever \<open>CreditUser\<close> call comes next, with whatever faults, the ids are distinct
  also inside its unit of work.  Concurrent requests are covered as far as units of
  work are atomic: \<open>reachable\<close> ranges over all sequences of them, replays included.
\<close>

theorem TransactionRecord_id_unique:
  assumes "reachable db"
  shows "distinct (map Txn_ID (coll_txns db)) \<and>
         (\<forall>t \<in> set (coll_txns db). \<forall>sub amount.
            NewTxn None (Txn_ID t) sub amount db = (Inl DuplicateKey, db)) \<and>
         (\<forall>f1 f2 sub amount txnID.
            distinct (map Txn_ID (coll_txns (snd (CreditUser f1 f2 sub amount txnID db)))))"
proof -
  have d: "distinct (map Txn_ID (coll_txns db))"
    using assms by (rule reachable_txn_ids_distinct)
  from d show ?thesis
    by (simp add: NewTxn_recorded CreditUser_keeps_ids_distinct)
qed

theorem TransactionRecord_id_unique_witness:
  "reachable (snd (unit_of_work (CreditUser None None ''userA'' (10::real) ''tx1'') empty_DB)) \<and>
   distinct (map Txn_ID (coll_txns (snd (unit_of_work (CreditUser None None ''userA'' (10::real) ''tx1'') empty_DB)))) \<and>
   NewTxn None ''tx1'' ''userB'' 3 (snd (unit_of_work (CreditUser None None ''userA'' (10::real) ''tx1'') empty_DB)) =
     (Inl DuplicateKey, snd (unit_of_work (CreditUser None None ''userA'' (10::real) ''tx1'') empty_DB)) \<and>
   distinct (map Txn_ID (coll_txns (snd (CreditUser None None ''userB'' 3 ''tx1''
      (snd (unit_of_work (CreditUser None None ''userA'' (10::real) ''tx1'') empty_DB))))))"
proof -
  let ?db1 = "snd (unit_of_work (CreditUser None None ''userA'' (10::real) ''tx1'') empty_DB)"
  have r: "reachable ?db1"
    by (rule reachable_credit) (rule reachable_empty)
  have txns: "coll_txns ?db1 = [\<lparr>Txn_ID = ''tx1'', Txn_Sub = ''userA'', Txn_Amount = 10\<rparr>]"
    by (simp add: unit_of_work_first empty_DB_def)
  note T = TransactionRecord_id_unique [OF r]
  from T have c1: "distinct (map Txn_ID (coll_txns ?db1))"
    by blast
  from T have "\<forall>t \<in> set (coll_txns ?db1). \<forall>sub amount.
            NewTxn None (Txn_ID t) sub amount ?db1 = (Inl DuplicateKey, ?db1)"
    by blast
  then have c2: "NewTxn None ''tx1'' ''userB'' 3 ?db1 = (Inl DuplicateKey, ?db1)"
    unfolding txns by simp
  from T have c3: "distinct (map Txn_ID (coll_txns (snd (CreditUser None None ''userB'' 3 ''tx1'' ?db1))))"
    by blast
  from r c1 c2 c3 show ?thesis
    by blast
qed

text \<open>
  Claim C7 (referential invariant).  In every reachable store state each transaction
  record's \<open>sub\<close> is the \<open>sub\<close> of a stored user.  \<open>CreditUser\<close> inserts the user first:
  when that insert succeeds, the transaction record is inserted into the store the user
  insert left, inside the same unit of work; when it fails with an error that is not a
  duplicate key, \<open>CreditUser\<close> returns that error with the context "failed to create
  user" without having touched the transaction records, and the unit of work ends with
  the store it started from.
\<close>

theorem TransactionRecord_has_User:
  "(reachable db \<longrightarrow>
      (\<forall>t \<in> set (coll_txns db). \<exists>u \<in> set (coll_users db). User_Sub u = Txn_Sub t)) \<and>
   (\<forall>u. fst (NewUser f1 sub db) = Inr u \<longrightarrow>
      snd (CreditUser f1 f2 sub amount txnID db) =
        snd (NewTxn f2 txnID sub amount (snd (NewUser f1 sub db)))) \<and>
   (\<forall>e. fst (NewUser f1 sub db) = Inl e \<and> \<not> IsDuplicateKeyError (Some e) \<longrightarrow>
      fst (CreditUser f1 f2 sub amount txnID db) = Inl (AddContext e ''failed to create user'') \<and>
      coll_txns (snd (CreditUser f1 f2 sub amount txnID db)) = coll_txns db \<and>
      snd (unit_of_work (CreditUser f1 f2 sub amount txnID) db) = db)"
proof (intro conjI allI impI)
  assume "reachable db"
  then show "\<forall>t \<in> set (coll_txns db). \<exists>u \<in> set (coll_users db). User_Sub u = Txn_Sub t"
    by (rule reachable_txn_has_user)
next
  fix u
  assume "fst (NewUser f1 sub db) = Inr u"
  then show "snd (CreditUser f1 f2 sub amount txnID db) =
        snd (NewTxn f2 txnID sub amount (snd (NewUser f1 sub db)))"
    by (rule CreditUser_user_insert_first)
next
  fix e
  assume a: "fst (NewUser f1 sub db) = Inl e \<and> \<not> IsDuplicateKeyError (Some e)"
  then have "e \<noteq> DuplicateKey" by auto
  with a have c: "CreditUser f1 f2 sub amount txnID db = (Inl (AddContext e ''failed to create user''), db)"
    by (simp add: CreditUser_user_insert_fails)
  from c show "fst (CreditUser f1 f2 sub amount txnID db) = Inl (AddContext e ''failed to create user'')"
    by simp
  from c show "coll_txns (snd (CreditUser f1 f2 sub amount txnID db)) = coll_txns db"
    by simp
  from c show "snd (unit_of_work (CreditUser f1 f2 sub amount txnID) db) = db"
    by (simp add: unit_of_work_def)
qed

theorem TransactionRecord_has_User_witness:
  "reachable (snd (unit_of_work (CreditUser None None ''userA'' (10::real) ''tx1'') empty_DB)) \<and>
   (\<exists>u \<in> set (coll_users (snd (unit_of_work (CreditUser None None ''userA'' (10::real) ''tx1'') empty_DB))).
      User_Sub u = ''userA'') \<and>
   fst (NewUser None ''userA'' (empty_DB :: real DB)) = Inr \<lparr>User_Sub = ''userA''\<rparr> \<and>
   snd (CreditUser None None ''userA'' (10::real) ''tx1'' empty_DB) =
     snd (NewTxn None ''tx1'' ''userA'' 10 (snd (NewUser None ''userA'' empty_DB))) \<and>
   fst (NewUser (Some (FaultExternal ''unreachable'')) ''userA'' (empty_DB :: real DB)) = Inl (External ''unreachable'') \<and>
   \<not> IsDuplicateKeyError (Some (External ''unreachable'')) \<and>
   fst (CreditUser (Some (FaultExternal ''unreachable'')) None ''userA'' (10::real) ''tx1'' empty_DB) =
     Inl (AddContext (External ''unreachable'') ''failed to create user'') \<and>
   snd (unit_of_work (CreditUser (Some (FaultExternal ''unreachable'')) None ''userA'' (10::real) ''tx1'') empty_DB) = empty_DB"
proof -
  let ?db1 = "snd (unit_of_work (CreditUser None None ''userA'' (10::real) ''tx1'') empty_DB)"
  let ?f = "Some (FaultExternal ''unreachable'')"
  have r: "reachable ?db1"
    by (rule reachable_credit) (rule reachable_empty)
  have txns: "coll_txns ?db1 = [\<lparr>Txn_ID = ''tx1'', Txn_Sub = ''userA'', Txn_Amount = 10\<rparr>]"
    by (simp add: unit_of_work_first empty_DB_def)
  have ok: "fst (NewUser None ''userA'' (empty_DB :: real DB)) = Inr \<lparr>User_Sub = ''userA''\<rparr>"
    by (simp add: NewUser_None)
  have bad: "fst (NewUser ?f ''userA'' (empty_DB :: real DB)) = Inl (External ''unreachable'')"
    by (simp add: NewUser_fault)
  have nd: "\<not> IsDuplicateKeyError (Some (External ''unreachable''))"
    by simp
  from TransactionRecord_has_User [of ?db1] r
  have "\<forall>t \<in> set (coll_txns ?db1). \<exists>u \<in> set (coll_users ?db1). User_Sub u = Txn_Sub t"
    by blast
  then have c1: "\<exists>u \<in> set (coll_users ?db1). User_Sub u = ''userA''"
    unfolding txns by simp
  from TransactionRecord_has_User [of "empty_DB :: real DB" None "''userA''" None 10 "''tx1''"] ok
  have c2: "snd (CreditUser None None ''userA'' (10::real) ''tx1'' empty_DB) =
     snd (NewTxn None ''tx1'' ''userA'' 10 (snd (NewUser None ''userA'' empty_DB)))"
    by blast
  from TransactionRecord_has_User [of "empty_DB :: real DB" ?f "''userA''" None 10 "''tx1''"] bad nd
  have c3: "fst (CreditUser ?f None ''userA'' (10::real) ''tx1'' empty_DB) =
     Inl (AddContext (External ''unreachable'') ''failed to create user'') \<and>
     snd (unit_of_work (CreditUser ?f None ''userA'' (10::real) ''tx1'') empty_DB) = empty_DB"
    by blast
  from r c1 ok c2 bad nd c3 show ?thesis
    by blast
qed

text \<open>
  Claim C3 (user uniqueness) does not hold of the code.  \<open>schema\<close> names no index on the
  users collection, so the store has no unique index on \<open>sub\<close> and the user insert
  never reports a duplicate key; two payments for one \<open>sub\<close> leave two user records.
\<close>

theorem User_not_unique_per_sub:
  "unique_fields collUsers = [] \<and>
   reachable (snd (unit_of_work (CreditUser None None ''userA'' (5::real) ''tx2'')
                (snd (unit_of_work (CreditUser None None ''userA'' (10::real) ''tx1'') empty_DB)))) \<and>
   coll_users (snd (unit_of_work (CreditUser None None ''userA'' (5::real) ''tx2'')
                (snd (unit_of_work (CreditUser None None ''userA'' (10::real) ''tx1'') empty_DB)))) =
     [\<lparr>User_Sub = ''userA''\<rparr>, \<lparr>User_Sub = ''userA''\<rparr>]"
proof -
  have r: "reachable (snd (unit_of_work (CreditUser None None ''userA'' (5::real) ''tx2'')
                (snd (unit_of_work (CreditUser None None ''userA'' (10::real) ''tx1'') empty_DB))))"
    by (intro reachable_credit reachable_empty)
  have u: "coll_users (snd (unit_of_work (CreditUser None None ''userA'' (5::real) ''tx2'')
                (snd (unit_of_work (CreditUser None None ''userA'' (10::real) ''tx1'') empty_DB)))) =
     [\<lparr>User_Sub = ''userA''\<rparr>, \<lparr>User_Sub = ''userA''\<rparr>]"
    by (simp add: unit_of_work_first empty_DB_def)
  from r u unique_fields_collUsers show ?thesis
    by blast
qed





section \<open>The payment handler\<close>

text \<open>
  Claim C4 (validation precedes I/O).  When the decoded payment has \<open>credits \<le> 0\<close>, an
  empty \<open>sub\<close> or an empty \<open>txnID\<close>, \<open>Validate\<close> returns an error and \<open>paymentPOST\<close>
  answers with that error under status 400, makes no \<open>CreditUser\<close> call and leaves
  the store as it was, whatever faults the store would have produced.
\<close>

theorem paymentPOST_validates_before_store:
  assumes "Credits p \<le> 0 \<or> Sub p = [] \<or> TxnID p = []"
  shows "\<exists>err. Validate p = Some err \<and>
           paymentPOST f1 f2 (Inr p) db =
             \<lparr>response = WriteError err 400, credit_calls = [], db_after = db\<rparr>"
proof -
  from assms have "Validate p \<noteq> None"
    by (auto simp add: Validate_def)
  then obtain err where v: "Validate p = Some err"
    by blast
  then have "paymentPOST f1 f2 (Inr p) db =
             \<lparr>response = WriteError err 400, credit_calls = [], db_after = db\<rparr>"
    by (simp add: paymentPOST_def StatusBadRequest_def)
  with v show ?thesis by blast
qed

theorem paymentPOST_validates_before_store_witness:
  "Credits \<lparr>TxnID = ''tx1'', Sub = ''userA'', Credits = (- 5 :: real)\<rparr> \<le> 0 \<and>
   (\<exists>err. Validate \<lparr>TxnID = ''tx1'', Sub = ''userA'', Credits = (- 5 :: real)\<rparr> = Some err \<and>
      paymentPOST None None (Inr \<lparr>TxnID = ''tx1'', Sub = ''userA'', Credits = (- 5 :: real)\<rparr>) empty_DB =
        \<lparr>response = WriteError err 400, credit_calls = [], db_after = (empty_DB :: real DB)\<rparr>)"
proof -
  have h: "Credits \<lparr>TxnID = ''tx1'', Sub = ''userA'', Credits = (- 5 :: real)\<rparr> \<le> 0"
    by simp
  then have "Credits \<lparr>TxnID = ''tx1'', Sub = ''userA'', Credits = (- 5 :: real)\<rparr> \<le> 0 \<or>
      Sub \<lparr>TxnID = ''tx1'', Sub = ''userA'', Credits = (- 5 :: real)\<rparr> = [] \<or>
      TxnID \<lparr>TxnID = ''tx1'', Sub = ''userA'', Credits = (- 5 :: real)\<rparr> = []"
    by blast
  from paymentPOST_validates_before_store [OF this, of None None "empty_DB :: real DB"] h show ?thesis
    by blast
qed

section \<open>The retry orchestrator: one attempt, the loop\<close>

lemma responses_append: "responses (xs @ ys) = responses xs + responses ys"
  by (simp add: responses_def)

lemma responses_WriteError: "responses (WriteError err code) = 1"
  by (simp add: responses_def WriteError_def)

lemma responses_flush: "responses [WriteHeader code, Write b] = 1"
  by (simp add: responses_def)

lemma handleFn_session_error:
  "NewSession_err a = Some err \<Longrightarrow>
   handleFn a r =
     (False, r\<lparr>attempts := Suc (attempts r),
               w := w r @ WriteError (AddContext err ''failed to start a new mongo session'') 500\<rparr>)"
  by (simp add: handleFn_def StatusInternalServerError_def)

lemma handleFn_writer_error:
  "NewSession_err a = None \<Longrightarrow> NewMongoWriter_err a = Some err \<Longrightarrow>
   handleFn a r =
     (False, r\<lparr>attempts := Suc (attempts r),
               w := w r @ WriteError (AddContext err ''failed to start a new transaction'') 500\<rparr>)"
  by (simp add: handleFn_def StatusInternalServerError_def)

lemma handleFn_success:
  "NewSession_err a = None \<Longrightarrow> NewMongoWriter_err a = None \<Longrightarrow>
   run_h a (store r) = (mw, s') \<Longrightarrow> ErrorStatus mw = 0 \<Longrightarrow>
   handleFn a r =
     (False, r\<lparr>attempts := Suc (attempts r), w := w r @ passed_to_w mw, store := s',
               h_calls := Suc (h_calls r)\<rparr>)"
  by (simp add: handleFn_def end_unit_of_work_def)

lemma handleFn_retry:
  "NewSession_err a = None \<Longrightarrow> NewMongoWriter_err a = None \<Longrightarrow>
   run_h a (store r) = (mw, s') \<Longrightarrow> ErrorStatus mw \<noteq> 0 \<Longrightarrow>
   FailedWithWriteConflict mw \<Longrightarrow> 0 < numRetriesLeft r \<Longrightarrow> \<not> ctx_Done a \<Longrightarrow>
   handleFn a r =
     (True, r\<lparr>attempts := Suc (attempts r), w := w r @ passed_to_w mw,
              h_calls := Suc (h_calls r), numRetriesLeft := numRetriesLeft r - 1\<rparr>)"
  by (simp add: handleFn_def end_unit_of_work_def)

lemma handleFn_flush:
  "NewSession_err a = None \<Longrightarrow> NewMongoWriter_err a = None \<Longrightarrow>
   run_h a (store r) = (mw, s') \<Longrightarrow> ErrorStatus mw \<noteq> 0 \<Longrightarrow>
   \<not> (FailedWithWriteConflict mw \<and> 0 < numRetriesLeft r \<and> \<not> ctx_Done a) \<Longrightarrow>
   handleFn a r =
     (False, r\<lparr>attempts := Suc (attempts r),
               w := w r @ passed_to_w mw @ [WriteHeader (ErrorStatus mw), Write (ErrorBuffer mw)],
               h_calls := Suc (h_calls r)\<rparr>)"
  by (auto simp add: handleFn_def end_unit_of_work_def Let_def)

lemma handleFn_True:
  assumes "handleFn a r = (True, r')"
  shows "0 < numRetriesLeft r \<and> numRetriesLeft r' = numRetriesLeft r - 1 \<and>
         attempts r' = Suc (attempts r) \<and> h_calls r' = Suc (h_calls r) \<and>
         store r' = store r \<and> w r' = w r @ passed_to_w (fst (run_h a (store r))) \<and>
         ErrorStatus (fst (run_h a (store r))) \<noteq> 0"
  using assms
  by (auto simp add: handleFn_def Let_def end_unit_of_work_def
      split: option.splits prod.splits if_splits)

lemma handleFn_counts:
  assumes "handleFn a r = (b, r')"
  shows "attempts r' = Suc (attempts r) \<and> h_calls r' \<le> Suc (h_calls r) \<and>
         numRetriesLeft r' \<le> numRetriesLeft r"
  using assms
  by (auto simp add: handleFn_def Let_def end_unit_of_work_def
      split: option.splits prod.splits if_splits)

lemma retry_loop_stop:
  "handleFn (env k) r = (False, r') \<Longrightarrow> retry_loop env k r = r'"
  by (subst retry_loop.simps) simp

lemma retry_loop_again:
  "handleFn (env k) r = (True, r') \<Longrightarrow> retry_loop env k r = retry_loop env (Suc k) r'"
  by (subst retry_loop.simps) simp

declare retry_loop.simps [simp del]

section \<open>The retry orchestrator: budget, terminal errors, responses\<close>

lemma retry_loop_bound:
  "0 \<le> numRetriesLeft r \<Longrightarrow>
   attempts (retry_loop env k r) \<le> attempts r + nat (numRetriesLeft r) + 1 \<and>
   h_calls (retry_loop env k r) \<le> h_calls r + nat (numRetriesLeft r) + 1"
proof (induction env k r rule: retry_loop.induct)
  case (1 env k r)
  obtain b r' where h: "handleFn (env k) r = (b, r')"
    by (cases "handleFn (env k) r")
  note C = handleFn_counts [OF h]
  show ?case
  proof (cases b)
    case False
    with h have "retry_loop env k r = r'"
      by (simp add: retry_loop_stop)
    with C show ?thesis by simp
  next
    case True
    with h have t: "handleFn (env k) r = (True, r')" by simp
    note T = handleFn_True [OF t]
    from T have pos: "0 \<le> numRetriesLeft r'" by simp
    have "attempts (retry_loop env (Suc k) r') \<le> attempts r' + nat (numRetriesLeft r') + 1 \<and>
          h_calls (retry_loop env (Suc k) r') \<le> h_calls r' + nat (numRetriesLeft r') + 1"
      using "1.IH" [OF h [symmetric] True pos] .
    moreover have "nat (numRetriesLeft r') + 1 = nat (numRetriesLeft r)"
      using T by linarith
    ultimately show ?thesis
      using T unfolding retry_loop_again [of env k r r', OF t] by simp
  qed
qed

lemma WithDBSession_body_error:
  "WithDBSession (Some err) env s =
     \<lparr>w = WriteError (AddContext err ''failed to read body'') 400, store = s,
      numRetriesLeft = 5, attempts = 0, h_calls = 0\<rparr>"
  by (simp add: WithDBSession_def StatusBadRequest_def DBTxnRetryCount_def)

lemma WithDBSession_loop:
  "WithDBSession None env s =
     retry_loop env 0 \<lparr>w = [], store = s, numRetriesLeft = 5, attempts = 0, h_calls = 0\<rparr>"
  by (simp add: WithDBSession_def DBTxnRetryCount_def)

text \<open>
  Claim C10 (termination and attempt bound).  The loop is the total function
  \<open>retry_loop\<close>, whose termination rests on \<open>numRetriesLeft\<close>: a run of \<open>handleFn\<close> that
  returns \<open>retry = true\<close> found the counter positive and leaves it one smaller.  The
  counter starts at \<open>DBTxnRetryCount = 5\<close>, so for every request \<open>handleFn\<close> runs at
  most 6 times and the handler is invoked at most \<open>DBTxnRetryCount + 1 = 6\<close> times,
  whatever the attempts record.
\<close>

theorem WithDBSession_attempt_bound:
  "attempts (WithDBSession body_err env s) \<le> 6 \<and>
   h_calls (WithDBSession body_err env s) \<le> nat (DBTxnRetryCount + 1) \<and>
   DBTxnRetryCount + 1 = 6 \<and>
   numRetriesLeft \<lparr>w = [], store = s, numRetriesLeft = DBTxnRetryCount, attempts = 0, h_calls = 0\<rparr> = 5 \<and>
   (\<forall>k r r'. handleFn (env k) r = (True, r') \<longrightarrow>
      0 < numRetriesLeft r \<and> numRetriesLeft r' = numRetriesLeft r - 1)"
proof -
  have "attempts (WithDBSession body_err env s) \<le> 6 \<and> h_calls (WithDBSession body_err env s) \<le> 6"
  proof (cases body_err)
    case (Some err)
    then show ?thesis by (simp add: WithDBSession_body_error)
  next
    case None
    let ?r = "\<lparr>w = [], store = s, numRetriesLeft = 5, attempts = 0, h_calls = 0\<rparr>"
    have "0 \<le> numRetriesLeft ?r" by simp
    from retry_loop_bound [OF this, of env 0] show ?thesis
      by (simp add: None WithDBSession_loop)
  qed
  moreover have "\<forall>k r r'. handleFn (env k) r = (True, r') \<longrightarrow>
      0 < numRetriesLeft r \<and> numRetriesLeft r' = numRetriesLeft r - 1"
    using handleFn_True by blast
  ultimately show ?thesis
    by (simp add: DBTxnRetryCount_def)
qed


lemma always_conflict_retry:
  "0 < n \<Longrightarrow>
   handleFn (always_conflict k) \<lparr>w = ws, store = (), numRetriesLeft = n, attempts = a, h_calls = c\<rparr> =
     (True, \<lparr>w = ws, store = (), numRetriesLeft = n - 1, attempts = Suc a, h_calls = Suc c\<rparr>)"
  by (simp add: handleFn_def always_conflict_def conflict_writer_def end_unit_of_work_def)

theorem WithDBSession_attempt_bound_witness:
  "attempts (WithDBSession None always_conflict ()) \<le> 6 \<and>
   h_calls (WithDBSession None always_conflict ()) \<le> nat (DBTxnRetryCount + 1) \<and>
   handleFn (always_conflict 0) \<lparr>w = [], store = (), numRetriesLeft = 5, attempts = 0, h_calls = 0\<rparr> =
     (True, \<lparr>w = [], store = (), numRetriesLeft = 4, attempts = 1, h_calls = 1\<rparr>) \<and>
   0 < numRetriesLeft \<lparr>w = [], store = (), numRetriesLeft = 5, attempts = 0, h_calls = 0\<rparr> \<and>
   numRetriesLeft \<lparr>w = [], store = (), numRetriesLeft = 4, attempts = 1, h_calls = 1\<rparr> =
     numRetriesLeft \<lparr>w = [], store = (), numRetriesLeft = 5, attempts = 0, h_calls = 0\<rparr> - 1"
proof -
  let ?r = "\<lparr>w = [], store = (), numRetriesLeft = 5, attempts = 0, h_calls = 0\<rparr>"
  let ?r' = "\<lparr>w = [], store = (), numRetriesLeft = 4, attempts = 1, h_calls = 1\<rparr>"
  note T = WithDBSession_attempt_bound [of None always_conflict "()"]
  have step: "handleFn (always_conflict 0) ?r = (True, ?r')"
    by (simp add: always_conflict_retry)
  from T have "\<forall>k r r'. handleFn (always_conflict k) r = (True, r') \<longrightarrow>
      0 < numRetriesLeft r \<and> numRetriesLeft r' = numRetriesLeft r - 1"
    by blast
  with step have "0 < numRetriesLeft ?r \<and> numRetriesLeft ?r' = numRetriesLeft ?r - 1"
    by blast
  with T step show ?thesis
    by blast
qed

lemma retry_loop_all_conflict:
  assumes "numRetriesLeft r = int n"
      and "\<forall>j \<le> n. records_conflict (env (k + j)) (store r) \<and> \<not> ctx_Done (env (k + j))"
  shows "attempts (retry_loop env k r) = attempts r + n + 1 \<and>
         h_calls (retry_loop env k r) = h_calls r + n + 1 \<and>
         store (retry_loop env k r) = store r \<and>
         numRetriesLeft (retry_loop env k r) = 0 \<and>
         w (retry_loop env k r) =
           w r @ concat (map (\<lambda>j. passed_to_w (fst (run_h (env j) (store r)))) [k..<k + n + 1]) @
           [WriteHeader (ErrorStatus (fst (run_h (env (k + n)) (store r)))),
            Write (ErrorBuffer (fst (run_h (env (k + n)) (store r))))]"
  using assms
proof (induction n arbitrary: k r)
  case 0
  obtain mw s' where run: "run_h (env k) (store r) = (mw, s')"
    by (cases "run_h (env k) (store r)")
  from "0.prems" have c: "records_conflict (env k) (store r)" and z: "numRetriesLeft r = 0"
    by simp_all
  from c run have "handleFn (env k) r =
     (False, r\<lparr>attempts := Suc (attempts r),
               w := w r @ passed_to_w mw @ [WriteHeader (ErrorStatus mw), Write (ErrorBuffer mw)],
               h_calls := Suc (h_calls r)\<rparr>)"
    by (intro handleFn_flush) (simp_all add: records_conflict_def z)
  from retry_loop_stop [of env k r, OF this] show ?case
    by (simp add: run z)
next
  case (Suc n)
  obtain mw s' where run: "run_h (env k) (store r) = (mw, s')"
    by (cases "run_h (env k) (store r)")
  from Suc.prems have c: "records_conflict (env k) (store r) \<and> \<not> ctx_Done (env k)"
    and z: "numRetriesLeft r = int (Suc n)"
    by (simp_all, metis add.right_neutral le0)
  let ?r' = "r\<lparr>attempts := Suc (attempts r), w := w r @ passed_to_w mw,
              h_calls := Suc (h_calls r), numRetriesLeft := numRetriesLeft r - 1\<rparr>"
  from c run have "handleFn (env k) r = (True, ?r')"
    by (intro handleFn_retry) (simp_all add: records_conflict_def z)
  from retry_loop_again [of env k r, OF this]
  have loop: "retry_loop env k r = retry_loop env (Suc k) ?r'" .
  have n': "numRetriesLeft ?r' = int n"
    by (simp add: z)
  have all': "\<forall>j \<le> n. records_conflict (env (Suc k + j)) (store ?r') \<and> \<not> ctx_Done (env (Suc k + j))"
  proof (intro allI impI)
    fix j assume "j \<le> n"
    then have "Suc j \<le> Suc n" by simp
    with Suc.prems(2) have "records_conflict (env (k + Suc j)) (store r) \<and> \<not> ctx_Done (env (k + Suc j))"
      by blast
    then show "records_conflict (env (Suc k + j)) (store ?r') \<and> \<not> ctx_Done (env (Suc k + j))"
      by simp
  qed
  have upt: "[k..<k + Suc n + 1] = k # [Suc k..<Suc k + n + 1]"
    by (simp add: upt_conv_Cons)
  from Suc.IH [OF n' all'] show ?case
    unfolding loop upt by (simp add: run)
qed

lemma WithDBSession_all_conflict:
  assumes "\<forall>k. records_conflict (env k) s \<and> \<not> ctx_Done (env k)"
  shows "attempts (WithDBSession None env s) = 6 \<and>
         h_calls (WithDBSession None env s) = 6 \<and>
         store (WithDBSession None env s) = s \<and>
         w (WithDBSession None env s) =
           concat (map (\<lambda>j. passed_to_w (fst (run_h (env j) s))) [0..<6]) @
           [WriteHeader (ErrorStatus (fst (run_h (env 5) s))),
            Write (ErrorBuffer (fst (run_h (env 5) s)))]"
proof -
  let ?r = "\<lparr>w = [], store = s, numRetriesLeft = 5, attempts = 0, h_calls = 0\<rparr>"
  have n: "numRetriesLeft ?r = int 5" by simp
  have all: "\<forall>j \<le> 5. records_conflict (env (0 + j)) (store ?r) \<and> \<not> ctx_Done (env (0 + j))"
    using assms by simp
  from retry_loop_all_conflict [of ?r 5 env 0, OF n all] show ?thesis
    by (simp add: WithDBSession_loop)
qed

lemma always_conflict_records:
  "records_conflict (always_conflict k) () \<and> \<not> ctx_Done (always_conflict k)"
  by (simp add: records_conflict_def always_conflict_def conflict_writer_def)


text \<open>
  Claim C2 (bounded retry) states that a request all of whose attempts record a conflict
  gets exactly \<open>N = 5\<close> attempts.  The code retries up to \<open>DBTxnRetryCount\<close> times
  after the first attempt: such a request gets 6 runs of the handler.
\<close>

theorem always_conflict_six_attempts:
  "DBTxnRetryCount = 5 \<and>
   attempts (WithDBSession None always_conflict ()) = 6 \<and>
   h_calls (WithDBSession None always_conflict ()) = 6"
proof -
  have "\<forall>k. records_conflict (always_conflict k) () \<and> \<not> ctx_Done (always_conflict k)"
    by (simp add: always_conflict_records)
  from WithDBSession_all_conflict [OF this] show ?thesis
    by (simp add: DBTxnRetryCount_def)
qed

text \<open>
  Claim C2 as amended.  When every attempt of a request records a conflict-classified
  error and the request context never expires, the orchestrator makes exactly
  \<open>DBTxnRetryCount + 1 = 6\<close> attempts, each invoking the handler once; the store
  afterwards is the store before; and the last call sequence on the real writer is
  the status and the buffer recorded by the sixth attempt, preceded only by what the
  writers themselves passed on while the handler ran.
\<close>

theorem WithDBSession_bounded_retry:
  assumes "\<forall>k. records_conflict (env k) s \<and> \<not> ctx_Done (env k)"
  shows "attempts (WithDBSession None env s) = nat (DBTxnRetryCount + 1) \<and>
         h_calls (WithDBSession None env s) = nat (DBTxnRetryCount + 1) \<and>
         nat (DBTxnRetryCount + 1) = 6 \<and>
         store (WithDBSession None env s) = s \<and>
         w (WithDBSession None env s) =
           concat (map (\<lambda>j. passed_to_w (fst (run_h (env j) s))) [0..<6]) @
           [WriteHeader (ErrorStatus (fst (run_h (env 5) s))),
            Write (ErrorBuffer (fst (run_h (env 5) s)))]"
  using WithDBSession_all_conflict [OF assms] by (simp add: DBTxnRetryCount_def)

theorem WithDBSession_bounded_retry_witness:
  "records_conflict (always_conflict 0) () \<and> \<not> ctx_Done (always_conflict 0) \<and>
   attempts (WithDBSession None always_conflict ()) = nat (DBTxnRetryCount + 1) \<and>
   h_calls (WithDBSession None always_conflict ()) = nat (DBTxnRetryCount + 1) \<and>
   store (WithDBSession None always_conflict ()) = () \<and>
   w (WithDBSession None always_conflict ()) =
     [WriteHeader 500, Write (JSON_errorWrap (AddContext WriteConflict ''failed to register txn''))]"
proof -
  have all: "\<forall>k. records_conflict (always_conflict k) () \<and> \<not> ctx_Done (always_conflict k)"
    by (simp add: always_conflict_records)
  have passed: "concat (map (\<lambda>j. passed_to_w (fst (run_h (always_conflict j) ()))) [0..<6]) = []"
    by (simp add: always_conflict_def conflict_writer_def)
  have last: "fst (run_h (always_conflict 5) ()) = conflict_writer"
    by (simp add: always_conflict_def)
  note T = WithDBSession_bounded_retry [OF all]
  from T have "w (WithDBSession None always_conflict ()) =
     [WriteHeader 500, Write (JSON_errorWrap (AddContext WriteConflict ''failed to register txn''))]"
    unfolding passed last by (simp add: conflict_writer_def)
  with T all show ?thesis
    by simp
qed

text \<open>
  Claim C8 (non-conflict errors are terminal).  Take any attempt of any request, in any
  state of the request with retries left or not: if its writer ends with an error
  status that is not classified as a write conflict, \<open>handleFn\<close> returns
  \<open>retry = false\<close>, the loop ends with this attempt, the store is the one the attempt
  started from, and the real writer has received, after what the writer itself passed on,
  the recorded status and the recorded buffer, once.
\<close>

theorem non_conflict_error_is_terminal:
  assumes "NewSession_err (env k) = None" and "NewMongoWriter_err (env k) = None"
      and "run_h (env k) (store r) = (mw, s')"
      and "ErrorStatus mw \<noteq> 0" and "\<not> FailedWithWriteConflict mw"
  shows "handleFn (env k) r =
           (False, r\<lparr>attempts := Suc (attempts r),
                     w := w r @ passed_to_w mw @ [WriteHeader (ErrorStatus mw), Write (ErrorBuffer mw)],
                     h_calls := Suc (h_calls r)\<rparr>) \<and>
         retry_loop env k r =
           r\<lparr>attempts := Suc (attempts r),
             w := w r @ passed_to_w mw @ [WriteHeader (ErrorStatus mw), Write (ErrorBuffer mw)],
             h_calls := Suc (h_calls r)\<rparr> \<and>
         store (retry_loop env k r) = store r \<and>
         numRetriesLeft (retry_loop env k r) = numRetriesLeft r \<and>
         responses (w (retry_loop env k r)) = responses (w r) + responses (passed_to_w mw) + 1"
proof -
  have h: "handleFn (env k) r =
           (False, r\<lparr>attempts := Suc (attempts r),
                     w := w r @ passed_to_w mw @ [WriteHeader (ErrorStatus mw), Write (ErrorBuffer mw)],
                     h_calls := Suc (h_calls r)\<rparr>)"
    using assms by (intro handleFn_flush) simp_all
  from retry_loop_stop [of env k r, OF h] h show ?thesis
    by (simp add: responses_append responses_flush)
qed


theorem non_conflict_error_is_terminal_witness:
  "NewSession_err (always_internal_error 0) = None \<and>
   NewMongoWriter_err (always_internal_error 0) = None \<and>
   run_h (always_internal_error 0) () = (internal_error_writer, ()) \<and>
   ErrorStatus internal_error_writer \<noteq> 0 \<and>
   \<not> FailedWithWriteConflict internal_error_writer \<and>
   retry_loop always_internal_error 0
       \<lparr>w = [], store = (), numRetriesLeft = 5, attempts = 0, h_calls = 0\<rparr> =
     \<lparr>w = [WriteHeader 500,
            Write (JSON_errorWrap (AddContext (External ''unreachable'') ''failed to create user''))],
      store = (), numRetriesLeft = 5, attempts = 1, h_calls = 1\<rparr> \<and>
   responses (w (retry_loop always_internal_error 0
       \<lparr>w = [], store = (), numRetriesLeft = 5, attempts = 0, h_calls = 0\<rparr>)) = 1"
proof -
  let ?r = "\<lparr>w = [], store = (), numRetriesLeft = 5, attempts = 0, h_calls = 0\<rparr> :: unit request"
  have a1: "NewSession_err (always_internal_error 0) = None"
    and a2: "NewMongoWriter_err (always_internal_error 0) = None"
    and a3: "run_h (always_internal_error 0) (store ?r) = (internal_error_writer, ())"
    and a4: "ErrorStatus internal_error_writer \<noteq> 0"
    and a5: "\<not> FailedWithWriteConflict internal_error_writer"
    by (simp_all add: always_internal_error_def internal_error_writer_def)
  note T = non_conflict_error_is_terminal [of always_internal_error 0 ?r, OF a1 a2 a3 a4 a5]
  from T have loop: "retry_loop always_internal_error 0 ?r =
     \<lparr>w = [WriteHeader 500,
            Write (JSON_errorWrap (AddContext (External ''unreachable'') ''failed to create user''))],
      store = (), numRetriesLeft = 5, attempts = 1, h_calls = 1\<rparr>"
    by (simp add: internal_error_writer_def)
  from T have one: "responses (w (retry_loop always_internal_error 0 ?r)) = 1"
    by (simp add: internal_error_writer_def responses_def)
  from a1 a2 a3 a4 a5 loop one show ?thesis
    by simp
qed

lemma handleFn_False_responses:
  assumes "handleFn a r = (False, r')"
      and "ErrorStatus (fst (run_h a (store r))) \<noteq> 0 \<longrightarrow> passed_to_w (fst (run_h a (store r))) = []"
      and "ErrorStatus (fst (run_h a (store r))) = 0 \<longrightarrow> responses (passed_to_w (fst (run_h a (store r)))) = 1"
  shows "responses (w r') = responses (w r) + 1"
proof (cases "NewSession_err a")
  case (Some err)
  from assms(1) show ?thesis
    by (auto simp add: handleFn_session_error [OF Some] responses_append responses_WriteError)
next
  case None
  note s = this
  show ?thesis
  proof (cases "NewMongoWriter_err a")
    case (Some err)
    from assms(1) show ?thesis
      by (auto simp add: handleFn_writer_error [OF s Some] responses_append responses_WriteError)
  next
    case None
    obtain mw s' where run: "run_h a (store r) = (mw, s')"
      by (cases "run_h a (store r)")
    show ?thesis
    proof (cases "ErrorStatus mw = 0")
      case True
      with assms(1,3) show ?thesis
        by (auto simp add: handleFn_success [OF s None run True] run responses_append)
    next
      case False
      note e = this
      show ?thesis
      proof (cases "FailedWithWriteConflict mw \<and> 0 < numRetriesLeft r \<and> \<not> ctx_Done a")
        case True
        with assms(1) handleFn_retry [OF s None run e] show ?thesis
          by simp
      next
        case False
        with assms(1,2) e show ?thesis
          by (auto simp add: handleFn_flush [OF s None run e False] run responses_append responses_flush)
      qed
    qed
  qed
qed

lemma retry_loop_one_response:
  assumes "\<forall>k s. ErrorStatus (fst (run_h (env k) s)) \<noteq> 0 \<longrightarrow> passed_to_w (fst (run_h (env k) s)) = []"
      and "\<forall>k s. ErrorStatus (fst (run_h (env k) s)) = 0 \<longrightarrow> responses (passed_to_w (fst (run_h (env k) s))) = 1"
  shows "responses (w (retry_loop env k r)) = responses (w r) + 1"
  using assms
proof (induction env k r rule: retry_loop.induct)
  case (1 env k r)
  note A = "1.prems"(1) and B = "1.prems"(2)
  obtain b r' where h: "handleFn (env k) r = (b, r')"
    by (cases "handleFn (env k) r")
  show ?case
  proof (cases b)
    case False
    with h have f: "handleFn (env k) r = (False, r')" by simp
    from A B have "ErrorStatus (fst (run_h (env k) (store r))) \<noteq> 0 \<longrightarrow>
        passed_to_w (fst (run_h (env k) (store r))) = []"
      and "ErrorStatus (fst (run_h (env k) (store r))) = 0 \<longrightarrow>
        responses (passed_to_w (fst (run_h (env k) (store r)))) = 1"
      by blast+
    from handleFn_False_responses [OF f this] show ?thesis
      unfolding retry_loop_stop [of env k r r', OF f] .
  next
    case True
    with h have t: "handleFn (env k) r = (True, r')" by simp
    note T = handleFn_True [OF t]
    with A have same: "w r' = w r" by simp
    from "1.IH" [OF h [symmetric] True A B] same show ?thesis
      unfolding retry_loop_again [of env k r r', OF t] by simp
  qed
qed


text \<open>
  Claim C9 (single flush) states that the real sink receives exactly one write per
  request although the writer never writes to it while the handler runs.  After an
  attempt that recorded no error \<open>handleFn\<close> returns without a call on \<open>w\<close>, "because
  both the status and the response content are already written to the response
  writer" (lines 325-329): when the writer of a successful attempt has passed nothing
  on, the request ends with no response at all.
\<close>

theorem silent_success_no_response:
  "ErrorStatus silent_writer = 0 \<and>
   passed_to_w silent_writer = [] \<and>
   w (WithDBSession None silent_success ()) = [] \<and>
   responses (w (WithDBSession None silent_success ())) = 0"
proof -
  let ?r = "\<lparr>w = [], store = (), numRetriesLeft = 5, attempts = 0, h_calls = 0\<rparr> :: unit request"
  have "handleFn (silent_success 0) ?r =
     (False, ?r\<lparr>attempts := Suc (attempts ?r), w := w ?r @ passed_to_w silent_writer, store := (),
               h_calls := Suc (h_calls ?r)\<rparr>)"
    by (rule handleFn_success) (simp_all add: silent_success_def silent_writer_def)
  from retry_loop_stop [of silent_success 0 ?r, OF this] show ?thesis
    by (simp add: WithDBSession_loop silent_writer_def responses_def)
qed

text \<open>
  Claim C9 as amended.  Suppose the writer passes nothing on to the real sink in an
  attempt that records an error, and passes exactly one response on in an attempt that
  records none.  Then the real sink receives exactly one response per request.  An
  attempt that is retried leaves the sink as it was.  After an attempt that recorded no
  error the orchestrator makes no call on the sink and does not retry: the sink holds what
  it held before and what the writer passed on while the handler ran.
\<close>

theorem one_response_per_request:
  assumes "\<forall>k s. ErrorStatus (fst (run_h (env k) s)) \<noteq> 0 \<longrightarrow> passed_to_w (fst (run_h (env k) s)) = []"
      and "\<forall>k s. ErrorStatus (fst (run_h (env k) s)) = 0 \<longrightarrow> responses (passed_to_w (fst (run_h (env k) s))) = 1"
  shows "responses (w (WithDBSession body_err env s)) = 1 \<and>
         (\<forall>k r r'. handleFn (env k) r = (True, r') \<longrightarrow> w r' = w r) \<and>
         (\<forall>k r. NewSession_err (env k) = None \<and> NewMongoWriter_err (env k) = None \<and>
                 ErrorStatus (fst (run_h (env k) (store r))) = 0 \<longrightarrow>
                 \<not> fst (handleFn (env k) r) \<and>
                 w (snd (handleFn (env k) r)) = w r @ passed_to_w (fst (run_h (env k) (store r))))"
proof (intro conjI allI impI)
  show "responses (w (WithDBSession body_err env s)) = 1"
  proof (cases body_err)
    case (Some err)
    then show ?thesis
      by (simp add: WithDBSession_body_error responses_WriteError)
  next
    case None
    from retry_loop_one_response [OF assms, of 0] show ?thesis
      by (simp add: None WithDBSession_loop responses_def)
  qed
next
  fix k and r r' :: "'a request"
  assume "handleFn (env k) r = (True, r')"
  from handleFn_True [OF this] assms(1) show "w r' = w r"
    by simp
next
  fix k and r :: "'a request"
  assume a: "NewSession_err (env k) = None \<and> NewMongoWriter_err (env k) = None \<and>
             ErrorStatus (fst (run_h (env k) (store r))) = 0"
  obtain mw s' where run: "run_h (env k) (store r) = (mw, s')"
    by (cases "run_h (env k) (store r)")
  from a run have "handleFn (env k) r =
     (False, r\<lparr>attempts := Suc (attempts r), w := w r @ passed_to_w mw, store := s',
               h_calls := Suc (h_calls r)\<rparr>)"
    by (intro handleFn_success) simp_all
  then show "\<not> fst (handleFn (env k) r)"
    and "w (snd (handleFn (env k) r)) = w r @ passed_to_w (fst (run_h (env k) (store r)))"
    by (simp_all add: run)
qed

theorem one_response_per_request_witness:
  "ErrorStatus conflict_writer \<noteq> 0 \<and> passed_to_w conflict_writer = [] \<and>
   ErrorStatus passing_writer = 0 \<and> responses (passed_to_w passing_writer) = 1 \<and>
   responses (w (WithDBSession None conflict_then_success ())) = 1 \<and>
   handleFn (conflict_then_success 0) \<lparr>w = [], store = (), numRetriesLeft = 5, attempts = 0, h_calls = 0\<rparr> =
     (True, \<lparr>w = [], store = (), numRetriesLeft = 4, attempts = 1, h_calls = 1\<rparr>) \<and>
   w \<lparr>w = [], store = (), numRetriesLeft = 4, attempts = 1, h_calls = 1::nat\<rparr> =
     w \<lparr>w = [], store = (), numRetriesLeft = 5, attempts = 0, h_calls = 0::nat\<rparr> \<and>
   \<not> fst (handleFn (conflict_then_success 1)
            \<lparr>w = [], store = (), numRetriesLeft = 4, attempts = 1, h_calls = 1\<rparr>) \<and>
   w (snd (handleFn (conflict_then_success 1)
            \<lparr>w = [], store = (), numRetriesLeft = 4, attempts = 1, h_calls = 1\<rparr>)) = [WriteHeader 204]"
proof -
  let ?r0 = "\<lparr>w = [], store = (), numRetriesLeft = 5, attempts = 0, h_calls = 0\<rparr> :: unit request"
  let ?r1 = "\<lparr>w = [], store = (), numRetriesLeft = 4, attempts = 1, h_calls = 1\<rparr> :: unit request"
  have facts: "ErrorStatus conflict_writer \<noteq> 0" "passed_to_w conflict_writer = []"
    "ErrorStatus passing_writer = 0" "responses (passed_to_w passing_writer) = 1"
    by (simp_all add: conflict_writer_def passing_writer_def responses_def)
  have A: "\<forall>k s. ErrorStatus (fst (run_h (conflict_then_success k) s)) \<noteq> 0 \<longrightarrow>
             passed_to_w (fst (run_h (conflict_then_success k) s)) = []"
    using facts by (simp add: conflict_then_success_def)
  have B: "\<forall>k s. ErrorStatus (fst (run_h (conflict_then_success k) s)) = 0 \<longrightarrow>
             responses (passed_to_w (fst (run_h (conflict_then_success k) s))) = 1"
    using facts by (simp add: conflict_then_success_def)
  note T = one_response_per_request [OF A B, of None "()"]
  have step0: "handleFn (conflict_then_success 0) ?r0 = (True, ?r1)"
    by (simp add: handleFn_def conflict_then_success_def conflict_writer_def end_unit_of_work_def)
  from T step0 have same: "w ?r1 = w ?r0"
    by blast
  have ok: "NewSession_err (conflict_then_success 1) = None \<and>
            NewMongoWriter_err (conflict_then_success 1) = None \<and>
            ErrorStatus (fst (run_h (conflict_then_success 1) (store ?r1))) = 0"
    by (simp add: conflict_then_success_def passing_writer_def)
  from T ok have "\<not> fst (handleFn (conflict_then_success 1) ?r1) \<and>
      w (snd (handleFn (conflict_then_success 1) ?r1)) =
        w ?r1 @ passed_to_w (fst (run_h (conflict_then_success 1) (store ?r1)))"
    by blast
  then have last: "\<not> fst (handleFn (conflict_then_success 1) ?r1) \<and>
      w (snd (handleFn (conflict_then_success 1) ?r1)) = [WriteHeader 204]"
    by (simp add: conflict_then_success_def passing_writer_def)
  from T have one: "responses (w (WithDBSession None conflict_then_success ())) = 1"
    by blast
  from facts one step0 same last show ?thesis
    by blast
qed

end
